theory Spec2Isabelle
  imports Complex_Main "HOL-Library.AList"
begin

section \<open>Conventions of the embedding\<close>

text \<open>
  The Python sources compute on \<^verbatim>\<open>float\<close>. The embedding reads every float as a
  \<^typ>\<open>real\<close>: arithmetic is exact, and rounding, NaN and the infinities of IEEE
  arithmetic are outside the model. Python's \<^verbatim>\<open>int\<close> is \<^typ>\<open>int\<close>, \<^verbatim>\<open>str\<close> is
  \<^typ>\<open>string\<close>, a \<^verbatim>\<open>dict\<close> is an association list in insertion order.

  What the code reads from its environment is an argument of the model: the clock
  (\<^verbatim>\<open>datetime.now().timestamp()\<close>), the draws of \<^verbatim>\<open>random\<close>, and the SHA-256 digest
  of \<^verbatim>\<open>hashlib\<close>, which is not code of this repository.
\<close>

datatype py_error = IndexError

section \<open>models/blockchain.py\<close>

record transaction =
  tx_hash :: string
  from_address :: string
  to_address :: string
  amount :: real
  tx_timestamp :: real
  block_index :: "int option"

text \<open>
  \<^verbatim>\<open>Transaction._generate_hash\<close>: the first 16 hex digits of the SHA-256 digest of the
  formatted sender, receiver, amount and timestamp. The argument \<open>sha\<close> stands for the
  formatting followed by \<^verbatim>\<open>hashlib.sha256(...).hexdigest()\<close>.
\<close>

type_synonym tx_sha = "string \<times> string \<times> real \<times> real \<Rightarrow> string"

definition tx_generate_hash :: "tx_sha \<Rightarrow> transaction \<Rightarrow> string" where
  "tx_generate_hash sha tx =
     take 16 (sha (from_address tx, to_address tx, amount tx, tx_timestamp tx))"

text \<open>
  The constructor \<^verbatim>\<open>Transaction(from_address=..., to_address=..., amount=...)\<close> with
  \<^verbatim>\<open>model_post_init\<close>: the timestamp defaults to the clock, the block index to
  \<^verbatim>\<open>None\<close>, and an empty hash is replaced by the generated one.
\<close>

definition Transaction :: "tx_sha \<Rightarrow> real \<Rightarrow> string \<Rightarrow> string \<Rightarrow> real \<Rightarrow> transaction" where
  "Transaction sha now from_addr to_addr amt =
     (let tx = \<lparr>tx_hash = [], from_address = from_addr, to_address = to_addr,
                amount = amt, tx_timestamp = now, block_index = None\<rparr>
      in if tx_hash tx = [] then tx\<lparr>tx_hash := tx_generate_hash sha tx\<rparr> else tx)"

record block =
  index :: int
  timestamp :: real
  transactions :: "transaction list"
  previous_hash :: string
  hash :: string
  nonce :: int

text \<open>
  \<^verbatim>\<open>Block._generate_hash\<close> digests the dictionary \<^verbatim>\<open>block_data\<close>: every field of the
  block but \<^verbatim>\<open>hash\<close>, the transactions as their \<^verbatim>\<open>model_dump()\<close>, which lists all
  six fields of a transaction (\<^verbatim>\<open>block_index\<close> among them). The argument \<open>sha\<close> stands
  for \<^verbatim>\<open>hashlib.sha256(json.dumps(block_data, sort_keys=True).encode()).hexdigest()\<close>.
\<close>

record block_data =
  bd_index :: int
  bd_timestamp :: real
  bd_transactions :: "transaction list"
  bd_previous_hash :: string
  bd_nonce :: int

type_synonym block_sha = "block_data \<Rightarrow> string"

definition model_dump :: "transaction \<Rightarrow> transaction" where
  "model_dump tx =
     \<lparr>tx_hash = tx_hash tx, from_address = from_address tx, to_address = to_address tx,
      amount = amount tx, tx_timestamp = tx_timestamp tx, block_index = block_index tx\<rparr>"

definition block_data_of :: "block \<Rightarrow> block_data" where
  "block_data_of b =
     \<lparr>bd_index = index b, bd_timestamp = timestamp b,
      bd_transactions = map model_dump (transactions b),
      bd_previous_hash = previous_hash b, bd_nonce = nonce b\<rparr>"

definition generate_hash :: "block_sha \<Rightarrow> block \<Rightarrow> string" where
  "generate_hash sha b = sha (block_data_of b)"

text \<open>
  The constructor \<^verbatim>\<open>Block(index=..., previous_hash=..., transactions=...)\<close> with
  \<^verbatim>\<open>model_post_init\<close>: the hash is generated once, here, from the fields as they are
  at construction.
\<close>

definition Block :: "block_sha \<Rightarrow> real \<Rightarrow> int \<Rightarrow> string \<Rightarrow> transaction list \<Rightarrow> block" where
  "Block sha now i prev txs =
     (let b = \<lparr>index = i, timestamp = now, transactions = txs, previous_hash = prev,
               hash = [], nonce = 0\<rparr>
      in if hash b = [] then b\<lparr>hash := generate_hash sha b\<rparr> else b)"

record blockchain =
  chain :: "block list"
  pending_transactions :: "transaction list"

text \<open>\<^verbatim>\<open>Blockchain()\<close>: the chain starts as the genesis block alone.\<close>

definition Blockchain :: "block_sha \<Rightarrow> real \<Rightarrow> blockchain" where
  "Blockchain sha now =
     (let bc = \<lparr>chain = [], pending_transactions = []\<rparr>
      in if chain bc = []
         then bc\<lparr>chain := chain bc @ [Block sha now 0 (replicate 64 (CHR ''0'')) []]\<rparr>
         else bc)"

text \<open>\<^verbatim>\<open>self.chain[-1]\<close> raises \<^verbatim>\<open>IndexError\<close> on an empty chain.\<close>

definition get_latest_block :: "blockchain \<Rightarrow> py_error + block" where
  "get_latest_block bc = (if chain bc = [] then Inl IndexError else Inr (last (chain bc)))"

definition bc_add_transaction :: "blockchain \<Rightarrow> transaction \<Rightarrow> blockchain" where
  "bc_add_transaction bc tx = bc\<lparr>pending_transactions := pending_transactions bc @ [tx]\<rparr>"

text \<open>
  \<^verbatim>\<open>Blockchain.create_block(transactions=None)\<close>. The arguments of \<^verbatim>\<open>Block(...)\<close> are
  evaluated before anything is changed, so a failing \<^verbatim>\<open>get_latest_block\<close> leaves the
  state as it was.
\<close>

definition bc_create_block ::
  "block_sha \<Rightarrow> real \<Rightarrow> blockchain \<Rightarrow> transaction list option \<Rightarrow> py_error + block \<times> blockchain"
where
  "bc_create_block sha now bc txs_opt =
     (let txs = (case txs_opt of Some t \<Rightarrow> t | None \<Rightarrow> pending_transactions bc)
      in case get_latest_block bc of
           Inl e \<Rightarrow> Inl e
         | Inr latest \<Rightarrow>
             (let new_block = Block sha now (int (length (chain bc))) (hash latest) txs;
                  bc1 = bc\<lparr>chain := chain bc @ [new_block]\<rparr>;
                  bc2 = (if txs_opt = None then bc1\<lparr>pending_transactions := []\<rparr> else bc1)
              in Inr (new_block, bc2)))"

text \<open>
  \<^verbatim>\<open>Blockchain.is_valid\<close>: the loop \<^verbatim>\<open>for i in range(1, len(self.chain))\<close>, leaving
  with \<^verbatim>\<open>False\<close> at the first block that fails a check.
\<close>

function is_valid_loop :: "block_sha \<Rightarrow> block list \<Rightarrow> nat \<Rightarrow> bool" where
  "is_valid_loop sha ch i =
     (if i < length ch then
        (let current = ch ! i; previous = ch ! (i - 1)
         in if previous_hash current \<noteq> hash previous then False
            else if hash current \<noteq> generate_hash sha current then False
            else is_valid_loop sha ch (i + 1))
      else True)"
  by pat_completeness auto
termination
  by (relation "measure (\<lambda>(sha, ch, i). length ch - i)") auto

definition bc_is_valid :: "block_sha \<Rightarrow> blockchain \<Rightarrow> bool" where
  "bc_is_valid sha bc = is_valid_loop sha (chain bc) 1"

section \<open>modules/blockchain\_simulator.py\<close>

text \<open>The ledger \<^verbatim>\<open>dict[str, float]\<close>: \<^verbatim>\<open>d.get(k, default)\<close> and \<^verbatim>\<open>d[k] = v\<close>.\<close>

type_synonym ledger_dict = "(string \<times> real) list"

definition dict_get :: "ledger_dict \<Rightarrow> string \<Rightarrow> real \<Rightarrow> real" where
  "dict_get d k dflt = (case map_of d k of None \<Rightarrow> dflt | Some v \<Rightarrow> v)"

definition dict_set :: "ledger_dict \<Rightarrow> string \<Rightarrow> real \<Rightarrow> ledger_dict" where
  "dict_set d k v = AList.update k v d"

record blockchain_simulator =
  blockchain :: blockchain
  ledger :: ledger_dict
  block_time :: real
  last_block_time :: real

definition BlockchainSimulator :: "block_sha \<Rightarrow> real \<Rightarrow> real \<Rightarrow> blockchain_simulator" where
  "BlockchainSimulator sha now_genesis now =
     \<lparr>blockchain = Blockchain sha now_genesis, ledger = [], block_time = 2,
      last_block_time = now\<rparr>"

definition initialize :: "blockchain_simulator \<Rightarrow> ledger_dict \<Rightarrow> blockchain_simulator" where
  "initialize s initial_distribution = s\<lparr>ledger := initial_distribution\<rparr>"

text \<open>
  \<^verbatim>\<open>BlockchainSimulator.add_transaction\<close>: \<^verbatim>\<open>None\<close> for a rejected call, the new
  transaction otherwise, together with the state after the call.
\<close>

definition add_transaction ::
  "tx_sha \<Rightarrow> real \<Rightarrow> blockchain_simulator \<Rightarrow> string \<Rightarrow> string \<Rightarrow> real
     \<Rightarrow> transaction option \<times> blockchain_simulator"
where
  "add_transaction sha now s from_addr to_addr amt =
     (if from_addr \<noteq> ''SYSTEM'' \<and> dict_get (ledger s) from_addr 0 < amt then (None, s)
      else if amt \<le> 0 then (None, s)
      else
        (let tx = Transaction sha now from_addr to_addr amt;
             l1 = (if from_addr \<noteq> ''SYSTEM''
                   then dict_set (ledger s) from_addr (dict_get (ledger s) from_addr 0 - amt)
                   else ledger s);
             l2 = dict_set l1 to_addr (dict_get l1 to_addr 0 + amt)
         in (Some tx, s\<lparr>ledger := l2, blockchain := bc_add_transaction (blockchain s) tx\<rparr>)))"

text \<open>
  \<^verbatim>\<open>BlockchainSimulator.create_block\<close>. The block that \<^verbatim>\<open>Blockchain.create_block\<close>
  returns is the object it appended to the chain, and the loop
  \<^verbatim>\<open>for tx in block.transactions: tx.block_index = block.index\<close> writes into the
  transactions of that object after its hash was generated. So the stamped block
  replaces the last block of the chain, with the hash it was constructed with.
\<close>

definition stamp :: "block \<Rightarrow> block" where
  "stamp b = b\<lparr>transactions := map (\<lambda>tx. tx\<lparr>block_index := Some (index b)\<rparr>) (transactions b)\<rparr>"

definition create_block ::
  "block_sha \<Rightarrow> real \<Rightarrow> real \<Rightarrow> blockchain_simulator \<Rightarrow> py_error + block \<times> blockchain_simulator"
where
  "create_block sha now_block now s =
     (case bc_create_block sha now_block (blockchain s) None of
        Inl e \<Rightarrow> Inl e
      | Inr (b, bc) \<Rightarrow>
          (let b' = stamp b;
               bc' = bc\<lparr>chain := butlast (chain bc) @ [b']\<rparr>
           in Inr (b', s\<lparr>blockchain := bc', last_block_time := now\<rparr>)))"

definition get_balance :: "blockchain_simulator \<Rightarrow> string \<Rightarrow> real" where
  "get_balance s address = dict_get (ledger s) address 0"

definition get_pending_transactions :: "blockchain_simulator \<Rightarrow> transaction list" where
  "get_pending_transactions s = pending_transactions (blockchain s)"

definition is_valid :: "block_sha \<Rightarrow> blockchain_simulator \<Rightarrow> bool" where
  "is_valid sha s = bc_is_valid sha (blockchain s)"


text \<open>
  Writing into a stored block from outside, \<^verbatim>\<open>bc.chain[k].hash = v\<close> and
  \<^verbatim>\<open>bc.chain[k].previous_hash = v\<close>, for an index \<open>k\<close> of the chain.
\<close>

definition overwrite_hash :: "blockchain \<Rightarrow> nat \<Rightarrow> string \<Rightarrow> blockchain" where
  "overwrite_hash bc k v = bc\<lparr>chain := (chain bc)[k := (chain bc ! k)\<lparr>hash := v\<rparr>]\<rparr>"

definition overwrite_previous_hash :: "blockchain \<Rightarrow> nat \<Rightarrow> string \<Rightarrow> blockchain" where
  "overwrite_previous_hash bc k v =
     bc\<lparr>chain := (chain bc)[k := (chain bc ! k)\<lparr>previous_hash := v\<rparr>]\<rparr>"

text \<open>
  The invariant of the data model: the chain is never empty and the block at position
  \<open>i\<close> has index \<open>i\<close>.
\<close>

definition chain_indexed :: "block list \<Rightarrow> bool" where
  "chain_indexed ch \<longleftrightarrow> ch \<noteq> [] \<and> map index ch = map int [0..<length ch]"

section \<open>modules/price\_simulator.py\<close>

record price_simulator =
  initial_price :: real
  current_price :: real
  volatility :: real
  price_history :: "(real \<times> real) list"
  trend :: real
  trend_strength :: real
  trend_decay :: real
  mean_price :: real
  reversion_strength :: real
  support_levels :: "real list"
  resistance_levels :: "real list"
  all_time_high :: real
  all_time_low :: real
  price_changes :: "real list"

definition PriceSimulator :: "real \<Rightarrow> real \<Rightarrow> real \<Rightarrow> price_simulator" where
  "PriceSimulator init_price vol now =
     \<lparr>initial_price = init_price, current_price = init_price, volatility = vol,
      price_history = [(now, init_price)], trend = 0, trend_strength = 0.3,
      trend_decay = 0.95, mean_price = init_price, reversion_strength = 0.1,
      support_levels = [], resistance_levels = [], all_time_high = init_price,
      all_time_low = init_price, price_changes = []\<rparr>"

definition add_support_level :: "price_simulator \<Rightarrow> real \<Rightarrow> price_simulator" where
  "add_support_level p price = p\<lparr>support_levels := support_levels p @ [price]\<rparr>"

definition add_resistance_level :: "price_simulator \<Rightarrow> real \<Rightarrow> price_simulator" where
  "add_resistance_level p price = p\<lparr>resistance_levels := resistance_levels p @ [price]\<rparr>"

text \<open>
  \<^verbatim>\<open>random.gauss(0, self.volatility)\<close> is \<^verbatim>\<open>mu + z * sigma\<close> for a standard normal
  draw \<open>z\<close>, which is an argument here.
\<close>

definition brownian_motion :: "price_simulator \<Rightarrow> real \<Rightarrow> real" where
  "brownian_motion p z = 0 + z * volatility p"

definition mean_reversion :: "price_simulator \<Rightarrow> real" where
  "mean_reversion p =
     (if mean_price p = 0 then 0
      else (mean_price p - current_price p) / mean_price p * reversion_strength p)"

definition trend_component :: "price_simulator \<Rightarrow> real" where
  "trend_component p = trend p * trend_strength p"

text \<open>The two loops of \<^verbatim>\<open>_support_resistance_effect\<close>, one after the other.\<close>

definition support_resistance_effect :: "price_simulator \<Rightarrow> real" where
  "support_resistance_effect p =
     (let effect0 = fold (\<lambda>support effect.
            if 0.95 * support \<le> current_price p \<and> current_price p \<le> support
            then effect + 0.02 else effect) (support_levels p) 0
      in fold (\<lambda>resistance effect.
            if resistance \<le> current_price p \<and> current_price p \<le> 1.05 * resistance
            then effect - 0.02 else effect) (resistance_levels p) effect0)"

text \<open>
  \<^verbatim>\<open>update_price(timestamp=None)\<close> with the normal draw \<open>z\<close> and the clock \<open>now\<close>: the
  new price and the state after the call.
\<close>

definition update_price ::
  "price_simulator \<Rightarrow> real \<Rightarrow> real \<Rightarrow> real option \<Rightarrow> real \<times> price_simulator"
where
  "update_price p z now timestamp_opt =
     (let ts = (case timestamp_opt of None \<Rightarrow> now | Some t \<Rightarrow> t);
          brownian = brownian_motion p z;
          reversion = mean_reversion p;
          trend_c = trend_component p;
          sr_effect = support_resistance_effect p;
          total_change = brownian + reversion + trend_c + sr_effect;
          change_factor = max (- volatility p) (min (volatility p) total_change);
          new_price0 = current_price p * (1 + change_factor);
          new_price = max 0.0001 new_price0;
          price_change = (if current_price p > 0
                          then (new_price - current_price p) / current_price p else 0)
      in (new_price,
          p\<lparr>price_changes := price_changes p @ [price_change],
            current_price := new_price,
            price_history := price_history p @ [(ts, new_price)],
            all_time_high := max (all_time_high p) new_price,
            all_time_low := min (all_time_low p) new_price,
            mean_price := mean_price p * 0.99 + new_price * 0.01,
            trend := trend p * trend_decay p\<rparr>))"

text \<open>
  The support/resistance component in the words of the specification: \<open>+0.02\<close> for
  each support level the current price sits within 5\% above, \<open>-0.02\<close> for each
  resistance level the current price sits within 5\% below.
\<close>

definition spec_support_resistance_effect :: "price_simulator \<Rightarrow> real" where
  "spec_support_resistance_effect p =
     0.02 * real (length (filter (\<lambda>support.
        support \<le> current_price p \<and> current_price p \<le> 1.05 * support) (support_levels p)))
     - 0.02 * real (length (filter (\<lambda>resistance.
        0.95 * resistance \<le> current_price p \<and> current_price p \<le> resistance)
          (resistance_levels p)))"

section \<open>models/cryptocurrency.py and modules/tokenomics\_engine.py\<close>

record tokenomics_config =
  cfg_total_supply :: real
  cfg_initial_price :: real
  inflation_rate :: real
  block_reward :: real
  holder_distribution :: ledger_dict
  stability_factor :: real
  min_price :: real
  max_price :: real


record tokenomics_engine =
  config :: tokenomics_config
  circulating_supply :: real
  total_supply :: real
  te_current_price :: real
  buy_pressure :: real
  sell_pressure :: real
  te_price_history :: "(real \<times> real) list"




definition add_sell_pressure :: "tokenomics_engine \<Rightarrow> real \<Rightarrow> tokenomics_engine" where
  "add_sell_pressure e amt = e\<lparr>sell_pressure := sell_pressure e + amt\<rparr>"



section \<open>modules/transaction\_generator.py\<close>












section \<open>The ledger: lemmas\<close>



lemma add_transaction_rejects:
  "fst (add_transaction sha now s f t a) = None \<longleftrightarrow>
     a \<le> 0 \<or> (f \<noteq> ''SYSTEM'' \<and> dict_get (ledger s) f 0 < a)"
  by (auto simp: add_transaction_def Let_def)

lemma add_transaction_rejected_state:
  "fst (add_transaction sha now s f t a) = None \<Longrightarrow> snd (add_transaction sha now s f t a) = s"
  by (auto simp: add_transaction_def Let_def split: if_splits)

lemma add_transaction_accepts:
  "fst (add_transaction sha now s f t a) = Some tx \<Longrightarrow> 0 < a"
  by (auto simp: add_transaction_def Let_def split: if_splits)

section \<open>The chain: lemmas\<close>

declare is_valid_loop.simps [simp del]

lemma is_valid_loop_iff:
  "is_valid_loop sha ch i \<longleftrightarrow>
     (\<forall>j. i \<le> j \<and> j < length ch \<longrightarrow>
        previous_hash (ch ! j) = hash (ch ! (j - 1)) \<and> hash (ch ! j) = generate_hash sha (ch ! j))"
proof (induction sha ch i rule: is_valid_loop.induct)
  case (1 sha ch i)
  show ?case
  proof (cases "i < length ch")
    case False
    then show ?thesis by (subst is_valid_loop.simps) auto
  next
    case True
    let ?ok = "\<lambda>j. previous_hash (ch ! j) = hash (ch ! (j - 1)) \<and> hash (ch ! j) = generate_hash sha (ch ! j)"
    show ?thesis
    proof (cases "?ok i")
      case False
      with True show ?thesis
        by (subst is_valid_loop.simps) (auto simp: Let_def)
    next
      case ok: True
      have "is_valid_loop sha ch i = is_valid_loop sha ch (i + 1)"
        using True ok by (subst is_valid_loop.simps) (simp add: Let_def)
      also have "\<dots> \<longleftrightarrow> (\<forall>j. i + 1 \<le> j \<and> j < length ch \<longrightarrow> ?ok j)"
        using "1.IH" [OF True refl refl] ok by simp
      also have "\<dots> \<longleftrightarrow> (\<forall>j. i \<le> j \<and> j < length ch \<longrightarrow> ?ok j)"
      proof -
        have "\<And>j. i \<le> j \<longleftrightarrow> j = i \<or> i + 1 \<le> j" by auto
        then show ?thesis using ok by metis
      qed
      finally show ?thesis .
    qed
  qed
qed

lemma generate_hash_hash_update [simp]: "generate_hash sha (b\<lparr>hash := v\<rparr>) = generate_hash sha b"
  by (simp add: generate_hash_def block_data_of_def)

lemma overwrite_previous_hash_detected:
  assumes "bc_is_valid sha bc" "1 \<le> k" "k < length (chain bc)" "v \<noteq> previous_hash (chain bc ! k)"
  shows "\<not> bc_is_valid sha (overwrite_previous_hash bc k v)"
proof -
  from assms have "previous_hash (chain bc ! k) = hash (chain bc ! (k - 1))"
    by (simp add: bc_is_valid_def is_valid_loop_iff)
  with assms show ?thesis
    unfolding bc_is_valid_def is_valid_loop_iff overwrite_previous_hash_def
    by (auto intro!: exI [of _ k])
qed

lemma overwrite_hash_detected:
  assumes "bc_is_valid sha bc" "1 \<le> k" "k < length (chain bc)" "v \<noteq> hash (chain bc ! k)"
  shows "\<not> bc_is_valid sha (overwrite_hash bc k v)"
proof -
  from assms have "hash (chain bc ! k) = generate_hash sha (chain bc ! k)"
    by (simp add: bc_is_valid_def is_valid_loop_iff)
  with assms show ?thesis
    unfolding bc_is_valid_def is_valid_loop_iff overwrite_hash_def
    by (auto intro!: exI [of _ k])
qed

lemma overwrite_genesis_hash_detected:
  assumes "bc_is_valid sha bc" "2 \<le> length (chain bc)" "v \<noteq> hash (chain bc ! 0)"
  shows "\<not> bc_is_valid sha (overwrite_hash bc 0 v)"
proof -
  let ?ch = "chain bc"
  let ?ch' = "?ch[0 := (?ch ! 0)\<lparr>hash := v\<rparr>]"
  from assms have link: "previous_hash (?ch ! 1) = hash (?ch ! 0)"
    by (simp add: bc_is_valid_def is_valid_loop_iff)
  have "?ch \<noteq> []"
    using assms(2) by auto
  then have "hash (?ch' ! 0) = v" "?ch' ! 1 = ?ch ! 1"
    by (simp_all add: nth_list_update)
  with link assms(3) have "previous_hash (?ch' ! 1) \<noteq> hash (?ch' ! (1 - 1))"
    by simp
  moreover have "1 < length ?ch'"
    using assms(2) by simp
  ultimately have "\<not> is_valid_loop sha ?ch' 1"
    unfolding is_valid_loop_iff by blast
  then show ?thesis
    by (simp add: bc_is_valid_def overwrite_hash_def)
qed

lemma overwrite_genesis_previous_hash_undetected:
  "bc_is_valid sha (overwrite_previous_hash bc 0 v) = bc_is_valid sha bc"
  unfolding bc_is_valid_def is_valid_loop_iff overwrite_previous_hash_def
  by (cases "chain bc") (auto simp: nth_list_update generate_hash_def block_data_of_def nth_Cons split: nat.splits)


lemma all_below_Suc:
  "0 < n \<Longrightarrow> (\<forall>j. Suc 0 \<le> j \<and> j < Suc n \<longrightarrow> P j) \<longleftrightarrow> (\<forall>j. Suc 0 \<le> j \<and> j < n \<longrightarrow> P j) \<and> P n"
  by (auto simp: less_Suc_eq)

lemma is_valid_loop_snoc:
  assumes "ch \<noteq> []"
  shows "is_valid_loop sha (ch @ [b]) (Suc 0) \<longleftrightarrow>
           is_valid_loop sha ch (Suc 0) \<and> previous_hash b = hash (last ch) \<and>
           hash b = generate_hash sha b"
proof -
  let ?ok = "\<lambda>xs j. previous_hash (xs ! j) = hash (xs ! (j - 1)) \<and> hash (xs ! j) = generate_hash sha (xs ! j)"
  have old: "?ok (ch @ [b]) j = ?ok ch j" if "Suc 0 \<le> j" "j < length ch" for j
    using that by (simp add: nth_append less_imp_diff_less)
  have new: "?ok (ch @ [b]) (length ch) \<longleftrightarrow> previous_hash b = hash (last ch) \<and> hash b = generate_hash sha b"
    using assms by (simp add: nth_append last_conv_nth)
  have len: "0 < length ch"
    using assms by simp
  have "is_valid_loop sha (ch @ [b]) (Suc 0) \<longleftrightarrow> (\<forall>j. Suc 0 \<le> j \<and> j < Suc (length ch) \<longrightarrow> ?ok (ch @ [b]) j)"
    by (simp add: is_valid_loop_iff)
  also have "\<dots> \<longleftrightarrow> (\<forall>j. Suc 0 \<le> j \<and> j < length ch \<longrightarrow> ?ok (ch @ [b]) j) \<and> ?ok (ch @ [b]) (length ch)"
    by (rule all_below_Suc [OF len])
  also have "\<dots> \<longleftrightarrow> (\<forall>j. Suc 0 \<le> j \<and> j < length ch \<longrightarrow> ?ok ch j) \<and> ?ok (ch @ [b]) (length ch)"
    using old by blast
  finally show ?thesis
    using new by (simp add: is_valid_loop_iff)
qed

lemma is_valid_loop_pair:
  "is_valid_loop sha [g, b] (Suc 0) \<longleftrightarrow>
     previous_hash b = hash g \<and> hash b = generate_hash sha b"
  using is_valid_loop_snoc [of "[g]" sha b] by (simp add: is_valid_loop_iff)

lemma overwrite_only_block_undetected:
  assumes "length (chain bc) = 1"
  shows "bc_is_valid sha (overwrite_hash bc k v)"
  using assms by (simp add: bc_is_valid_def overwrite_hash_def is_valid_loop_iff)

lemma differs_from_zero_hash: "''xx'' \<noteq> replicate 64 (CHR ''0'')"
proof
  assume "''xx'' = replicate 64 (CHR ''0'')"
  then have "length ''xx'' = length (replicate 64 (CHR ''0''))"
    by (rule arg_cong)
  then show False by simp
qed

lemma bc_create_block_pending:
  assumes "chain bc \<noteq> []"
  shows "bc_create_block sha now bc None =
           Inr (Block sha now (int (length (chain bc))) (hash (last (chain bc))) (pending_transactions bc),
                \<lparr>chain = chain bc @ [Block sha now (int (length (chain bc))) (hash (last (chain bc)))
                                      (pending_transactions bc)],
                 pending_transactions = []\<rparr>)"
  using assms by (simp add: bc_create_block_def get_latest_block_def Let_def)

lemma create_block_result:
  assumes "chain (blockchain s) \<noteq> []"
  shows "create_block sha nb n s =
           Inr (stamp (Block sha nb (int (length (chain (blockchain s))))
                        (hash (last (chain (blockchain s)))) (pending_transactions (blockchain s))),
                s\<lparr>blockchain :=
                    \<lparr>chain = chain (blockchain s) @
                       [stamp (Block sha nb (int (length (chain (blockchain s))))
                          (hash (last (chain (blockchain s)))) (pending_transactions (blockchain s)))],
                     pending_transactions = []\<rparr>,
                  last_block_time := n\<rparr>)"
  using assms by (simp add: create_block_def bc_create_block_pending Let_def)

lemma Block_fields [simp]:
  "index (Block sha now i prev txs) = i"
  "timestamp (Block sha now i prev txs) = now"
  "transactions (Block sha now i prev txs) = txs"
  "previous_hash (Block sha now i prev txs) = prev"
  "nonce (Block sha now i prev txs) = 0"
  "hash (Block sha now i prev txs) =
     sha \<lparr>bd_index = i, bd_timestamp = now, bd_transactions = map model_dump txs,
          bd_previous_hash = prev, bd_nonce = 0\<rparr>"
  by (simp_all add: Block_def Let_def generate_hash_def block_data_of_def)

lemma stamp_fields [simp]:
  "index (stamp b) = index b"
  "timestamp (stamp b) = timestamp b"
  "previous_hash (stamp b) = previous_hash b"
  "hash (stamp b) = hash b"
  "nonce (stamp b) = nonce b"
  "transactions (stamp b) = map (\<lambda>tx. tx\<lparr>block_index := Some (index b)\<rparr>) (transactions b)"
  by (simp_all add: stamp_def)

lemma is_valid_fresh: "is_valid sha (BlockchainSimulator sha t0 t1)"
  by (simp add: is_valid_def bc_is_valid_def BlockchainSimulator_def Blockchain_def Let_def
      is_valid_loop_iff)

lemma add_transaction_chain:
  "chain (blockchain (snd (add_transaction txsha now s f t a))) = chain (blockchain s)"
  by (simp add: add_transaction_def Let_def bc_add_transaction_def)

lemma is_valid_add_transaction:
  "is_valid sha (snd (add_transaction txsha now s f t a)) = is_valid sha s"
  by (simp add: is_valid_def bc_is_valid_def add_transaction_chain)

lemma create_block_is_valid:
  assumes "chain (blockchain s) \<noteq> []" and "is_valid sha s"
  shows "\<exists>b s'. create_block sha nb n s = Inr (b, s') \<and>
           (is_valid sha s' \<longleftrightarrow> hash b = generate_hash sha b)"
  using assms
  by (auto simp: create_block_result is_valid_def bc_is_valid_def is_valid_loop_snoc)

lemma chain_indexed_last:
  assumes "chain_indexed ch"
  shows "index (last ch) = int (length ch) - 1"
proof -
  from assms have ne: "ch \<noteq> []" and m: "map index ch = map int [0..<length ch]"
    by (simp_all add: chain_indexed_def)
  have "index (last ch) = map index ch ! (length ch - 1)"
    using ne by (simp add: last_conv_nth)
  also have "\<dots> = int (length ch - 1)"
    using ne by (simp add: m)
  finally show ?thesis using ne by (simp add: of_nat_diff Suc_leI)
qed

lemma chain_indexed_Blockchain: "chain_indexed (chain (Blockchain sha now))"
  by (simp add: chain_indexed_def Blockchain_def Let_def)

lemma chain_indexed_snoc:
  "chain_indexed ch \<Longrightarrow> index b = int (length ch) \<Longrightarrow> chain_indexed (ch @ [b])"
  by (simp add: chain_indexed_def)

lemma chain_indexed_create_block:
  assumes "chain_indexed (chain (blockchain s))" "create_block sha nb n s = Inr (b, s')"
  shows "chain_indexed (chain (blockchain s'))"
proof -
  from assms(1) have "chain (blockchain s) \<noteq> []" by (simp add: chain_indexed_def)
  from create_block_result [OF this, of sha nb n] assms show ?thesis
    by (auto intro!: chain_indexed_snoc)
qed

lemma chain_indexed_BlockchainSimulator:
  "chain_indexed (chain (blockchain (BlockchainSimulator sha t0 t1)))"
  by (simp add: BlockchainSimulator_def chain_indexed_Blockchain)

lemma chain_indexed_initialize:
  "chain_indexed (chain (blockchain (initialize s d))) = chain_indexed (chain (blockchain s))"
  by (simp add: initialize_def)

lemma chain_indexed_add_transaction:
  "chain_indexed (chain (blockchain (snd (add_transaction txsha now s f t a)))) =
     chain_indexed (chain (blockchain s))"
  by (simp add: add_transaction_chain)

lemma model_dump_id: "model_dump tx = tx"
  by (simp add: model_dump_def)

lemma stamp_changes_block_data:
  assumes "tx \<in> set (transactions b)" and "block_index tx \<noteq> Some (index b)"
  shows "block_data_of (stamp b) \<noteq> block_data_of b"
proof
  assume "block_data_of (stamp b) = block_data_of b"
  then have "bd_transactions (block_data_of (stamp b)) = bd_transactions (block_data_of b)"
    by simp
  then have "map (\<lambda>tx. tx\<lparr>block_index := Some (index b)\<rparr>) (transactions b) = transactions b"
    by (simp add: block_data_of_def model_dump_id [abs_def])
  then have "map block_index (map (\<lambda>tx. tx\<lparr>block_index := Some (index b)\<rparr>) (transactions b))
      = map block_index (transactions b)"
    by simp
  then have "\<forall>x \<in> set (transactions b). block_index x = Some (index b)"
    by (simp add: map_eq_conv eq_commute)
  with assms show False by blast
qed

section \<open>The price process and the tokenomics engine: lemmas\<close>

lemma fold_add_if:
  "fold (\<lambda>x e. if P x then e + c else e) xs (e0::real) = e0 + c * real (length (filter P xs))"
  by (induction xs arbitrary: e0) (simp_all add: algebra_simps)

lemma fold_sub_if:
  "fold (\<lambda>x e. if P x then e - c else e) xs (e0::real) = e0 - c * real (length (filter P xs))"
  by (induction xs arbitrary: e0) (simp_all add: algebra_simps)

lemma support_resistance_effect_count:
  "support_resistance_effect p =
     0.02 * real (length (filter (\<lambda>support.
        0.95 * support \<le> current_price p \<and> current_price p \<le> support) (support_levels p)))
     - 0.02 * real (length (filter (\<lambda>resistance.
        resistance \<le> current_price p \<and> current_price p \<le> 1.05 * resistance)
          (resistance_levels p)))"
  by (simp add: support_resistance_effect_def Let_def fold_add_if fold_sub_if)

lemma update_price_fst:
  "fst (update_price p z now ts) =
     max 0.0001 (current_price p * (1 + max (- volatility p) (min (volatility p)
        (brownian_motion p z + mean_reversion p + trend_component p + support_resistance_effect p))))"
  by (simp add: update_price_def Let_def)



section \<open>The transaction generator: lemmas\<close>







section \<open>Claims about the ledger\<close>




text \<open>
  C2. \<open>add_transaction(from, to, amount)\<close> returns \<open>None\<close> exactly when the amount is
  not positive, or the sender is not \<open>SYSTEM\<close> and its balance is less than the amount;
  a rejected call leaves the whole state, so all balances and the pending queue, as
  it was. The model has no error result for this operation: nothing in its body
  raises.
\<close>

theorem add_transaction_rejection:
  "(fst (add_transaction sha now s f t a) = None \<longleftrightarrow>
      a \<le> 0 \<or> (f \<noteq> ''SYSTEM'' \<and> get_balance s f < a)) \<and>
   (fst (add_transaction sha now s f t a) = None \<longrightarrow>
      snd (add_transaction sha now s f t a) = s \<and>
      ledger (snd (add_transaction sha now s f t a)) = ledger s \<and>
      get_pending_transactions (snd (add_transaction sha now s f t a)) =
        get_pending_transactions s)"
  using add_transaction_rejects [of sha now s f t a]
    add_transaction_rejected_state [of sha now s f t a]
  by (simp add: get_balance_def)

text \<open>
  The scenario of the specification: with the balances \<open>{A: 100}\<close>,
  \<open>add_transaction("A", "B", 1000)\<close> is rejected and the state is unchanged.
\<close>

theorem add_transaction_rejection_witness:
  "fst (add_transaction (\<lambda>_. ''ab'') 5
        (initialize (BlockchainSimulator (\<lambda>_. ''cd'') 0 0) [(''A'', 100)]) ''A'' ''B'' 1000) = None \<and>
   snd (add_transaction (\<lambda>_. ''ab'') 5
        (initialize (BlockchainSimulator (\<lambda>_. ''cd'') 0 0) [(''A'', 100)]) ''A'' ''B'' 1000)
     = initialize (BlockchainSimulator (\<lambda>_. ''cd'') 0 0) [(''A'', 100)]"
proof -
  have "get_balance (initialize (BlockchainSimulator (\<lambda>_. ''cd'') 0 0) [(''A'', 100)]) ''A'' < 1000"
    by (simp add: get_balance_def initialize_def dict_get_def)
  then show ?thesis
    using add_transaction_rejection [of "\<lambda>_. ''ab''" 5
        "initialize (BlockchainSimulator (\<lambda>_. ''cd'') 0 0) [(''A'', 100)]" "''A''" "''B''" 1000]
    by simp
qed

text \<open>
  C3, at the scenario of the specification. On a fresh ledger with the balances
  \<open>{A: 100}\<close>, after the accepted \<open>add_transaction("A", "B", 30)\<close> and \<open>create_block()\<close>,
  \<open>is_valid()\<close> holds exactly when the digest of the sealed block's data with the
  transaction stamped (\<open>block_index = 1\<close>) equals the digest of the same data with the
  transaction unstamped (\<open>block_index = None\<close>), which is what the stored hash was
  generated from. For SHA-256 that is a collision of two different inputs, so
  \<open>is_valid()\<close> returns \<open>False\<close>.
\<close>

theorem create_block_breaks_validity:
  "case create_block sha 2 2
       (snd (add_transaction txsha 1
          (initialize (BlockchainSimulator sha 0 0) [(''A'', 100)]) ''A'' ''B'' 30)) of
     Inl e \<Rightarrow> False
   | Inr (b, s') \<Rightarrow>
       is_valid sha s' =
         (sha \<lparr>bd_index = 1, bd_timestamp = 2,
               bd_transactions =
                 [\<lparr>tx_hash = take 16 (txsha (''A'', ''B'', 30, 1)), from_address = ''A'',
                   to_address = ''B'', amount = 30, tx_timestamp = 1, block_index = None\<rparr>],
               bd_previous_hash =
                 sha \<lparr>bd_index = 0, bd_timestamp = 0, bd_transactions = [],
                      bd_previous_hash = replicate 64 (CHR ''0''), bd_nonce = 0\<rparr>,
               bd_nonce = 0\<rparr>
          = sha \<lparr>bd_index = 1, bd_timestamp = 2,
               bd_transactions =
                 [\<lparr>tx_hash = take 16 (txsha (''A'', ''B'', 30, 1)), from_address = ''A'',
                   to_address = ''B'', amount = 30, tx_timestamp = 1, block_index = Some 1\<rparr>],
               bd_previous_hash =
                 sha \<lparr>bd_index = 0, bd_timestamp = 0, bd_transactions = [],
                      bd_previous_hash = replicate 64 (CHR ''0''), bd_nonce = 0\<rparr>,
               bd_nonce = 0\<rparr>)"
proof -
  let ?s = "snd (add_transaction txsha 1
          (initialize (BlockchainSimulator sha 0 0) [(''A'', 100)]) ''A'' ''B'' 30)"
  have ch: "chain (blockchain ?s) = [Block sha 0 0 (replicate 64 (CHR ''0'')) []]"
    by (simp add: add_transaction_chain initialize_def BlockchainSimulator_def Blockchain_def
        Let_def)
  have pend: "pending_transactions (blockchain ?s) = [Transaction txsha 1 ''A'' ''B'' 30]"
    by (simp add: add_transaction_def Let_def initialize_def
        BlockchainSimulator_def Blockchain_def bc_add_transaction_def dict_get_def)
  have ne: "chain (blockchain ?s) \<noteq> []"
    by (simp add: ch)
  show ?thesis
    unfolding create_block_result [OF ne]
    by (simp add: ch pend is_valid_def bc_is_valid_def is_valid_loop_pair
        generate_hash_def block_data_of_def model_dump_def Transaction_def Let_def
        tx_generate_hash_def)
qed

text \<open>
  C4, as amended. On a chain for which \<open>is_valid()\<close> holds, overwriting with a different
  value the stored \<open>previous_hash\<close> of a block other than the genesis block, the stored
  \<open>hash\<close> of a block other than the genesis block, or the stored \<open>hash\<close> of the genesis
  block of a chain of at least two blocks makes \<open>is_valid()\<close> false. Overwriting the
  \<open>previous_hash\<close> of the genesis block, or the \<open>hash\<close> of the only block of a chain,
  leaves \<open>is_valid()\<close> true: the loop starts at the second block and never
  regenerates the hash of the first.
\<close>

theorem tampering_detected:
  assumes "bc_is_valid sha bc" and "k < length (chain bc)"
  shows "(1 \<le> k \<and> v \<noteq> previous_hash (chain bc ! k) \<longrightarrow>
            \<not> bc_is_valid sha (overwrite_previous_hash bc k v)) \<and>
         ((1 \<le> k \<or> 2 \<le> length (chain bc)) \<and> v \<noteq> hash (chain bc ! k) \<longrightarrow>
            \<not> bc_is_valid sha (overwrite_hash bc k v)) \<and>
         (k = 0 \<longrightarrow> bc_is_valid sha (overwrite_previous_hash bc k v)) \<and>
         (length (chain bc) = 1 \<longrightarrow> bc_is_valid sha (overwrite_hash bc k v))"
proof (intro conjI impI)
  assume "1 \<le> k \<and> v \<noteq> previous_hash (chain bc ! k)"
  with assms show "\<not> bc_is_valid sha (overwrite_previous_hash bc k v)"
    by (simp add: overwrite_previous_hash_detected)
next
  assume a: "(1 \<le> k \<or> 2 \<le> length (chain bc)) \<and> v \<noteq> hash (chain bc ! k)"
  show "\<not> bc_is_valid sha (overwrite_hash bc k v)"
  proof (cases "k = 0")
    case True
    with a assms show ?thesis
      using overwrite_genesis_hash_detected [of sha bc v] by simp
  next
    case False
    with a assms show ?thesis
      using overwrite_hash_detected [of sha bc k v] by simp
  qed
next
  assume "k = 0"
  with assms(1) show "bc_is_valid sha (overwrite_previous_hash bc k v)"
    by (simp add: overwrite_genesis_previous_hash_undetected)
next
  assume "length (chain bc) = 1"
  then show "bc_is_valid sha (overwrite_hash bc k v)"
    by (rule overwrite_only_block_undetected)
qed

text \<open>
  The chain of a fresh ledger after one \<open>create_block()\<close> with an empty queue (every
  digest is \<open>cd\<close> here): overwriting the second block's \<open>previous_hash\<close> or \<open>hash\<close>, or
  the genesis block's \<open>hash\<close>, is detected.
\<close>

theorem tampering_detected_witness:
  "\<not> bc_is_valid (\<lambda>_. ''cd'')
       (overwrite_previous_hash
          \<lparr>chain = [Block (\<lambda>_. ''cd'') 0 0 (replicate 64 (CHR ''0'')) [],
                    Block (\<lambda>_. ''cd'') 1 1 ''cd'' []],
           pending_transactions = []\<rparr> 1 ''xx'') \<and>
   \<not> bc_is_valid (\<lambda>_. ''cd'')
       (overwrite_hash
          \<lparr>chain = [Block (\<lambda>_. ''cd'') 0 0 (replicate 64 (CHR ''0'')) [],
                    Block (\<lambda>_. ''cd'') 1 1 ''cd'' []],
           pending_transactions = []\<rparr> 1 ''xx'') \<and>
   \<not> bc_is_valid (\<lambda>_. ''cd'')
       (overwrite_hash
          \<lparr>chain = [Block (\<lambda>_. ''cd'') 0 0 (replicate 64 (CHR ''0'')) [],
                    Block (\<lambda>_. ''cd'') 1 1 ''cd'' []],
           pending_transactions = []\<rparr> 0 ''xx'')"
proof -
  let ?bc = "\<lparr>chain = [Block (\<lambda>_. ''cd'') 0 0 (replicate 64 (CHR ''0'')) [],
                    Block (\<lambda>_. ''cd'') 1 1 ''cd'' []],
           pending_transactions = []\<rparr>"
  have v: "bc_is_valid (\<lambda>_. ''cd'') ?bc"
    by (simp add: bc_is_valid_def is_valid_loop_pair generate_hash_def)
  show ?thesis
    using tampering_detected [OF v, of 1 "''xx''"] tampering_detected [OF v, of 0 "''xx''"]
    by simp
qed

text \<open>
  C4 as it is stated fails on the fresh ledger, whose chain is the genesis block
  alone: \<open>is_valid()\<close> holds, and it still holds after the genesis block's \<open>hash\<close>, or
  its \<open>previous_hash\<close>, is overwritten with a different value.
\<close>

theorem genesis_tampering_counterexample:
  "bc_is_valid (\<lambda>_. ''cd'') (Blockchain (\<lambda>_. ''cd'') 0) \<and>
   length (chain (Blockchain (\<lambda>_. ''cd'') 0)) = 1 \<and>
   ''xx'' \<noteq> hash (chain (Blockchain (\<lambda>_. ''cd'') 0) ! 0) \<and>
   bc_is_valid (\<lambda>_. ''cd'') (overwrite_hash (Blockchain (\<lambda>_. ''cd'') 0) 0 ''xx'') \<and>
   ''xx'' \<noteq> previous_hash (chain (Blockchain (\<lambda>_. ''cd'') 0) ! 0) \<and>
   bc_is_valid (\<lambda>_. ''cd'') (overwrite_previous_hash (Blockchain (\<lambda>_. ''cd'') 0) 0 ''xx'')"
  by (simp add: bc_is_valid_def is_valid_loop_iff Blockchain_def Let_def overwrite_hash_def
      overwrite_previous_hash_def differs_from_zero_hash)

text \<open>
  C8. In a state whose chain satisfies the invariant of the data model (not empty,
  the block at position \<open>i\<close> has index \<open>i\<close>), \<open>create_block()\<close> succeeds; the new block
  holds the pending transactions, each stamped with the new block's index, so as
  many as the queue held; its \<open>previous_hash\<close> is the hash of the chain's last block;
  its index is the length of the chain, one more than the index of the last block;
  the block is appended to the chain and the pending queue is empty afterwards.
\<close>

theorem create_block_seals_pending:
  assumes "chain_indexed (chain (blockchain s))"
  shows "\<exists>b s'. create_block sha now_block now s = Inr (b, s') \<and>
           length (transactions b) = length (get_pending_transactions s) \<and>
           transactions b =
             map (\<lambda>tx. tx\<lparr>block_index := Some (index b)\<rparr>) (get_pending_transactions s) \<and>
           previous_hash b = hash (last (chain (blockchain s))) \<and>
           index b = int (length (chain (blockchain s))) \<and>
           index b = index (last (chain (blockchain s))) + 1 \<and>
           (\<forall>tx \<in> set (transactions b). block_index tx = Some (index b)) \<and>
           chain (blockchain s') = chain (blockchain s) @ [b] \<and>
           get_pending_transactions s' = []"
proof -
  from assms have ne: "chain (blockchain s) \<noteq> []" by (simp add: chain_indexed_def)
  show ?thesis
    using chain_indexed_last [OF assms]
    by (auto simp: create_block_result [OF ne] get_pending_transactions_def)
qed

text \<open>
  The scenario of the specification: after \<open>add_transaction("A", "B", 30)\<close> on a fresh
  ledger, \<open>create_block()\<close> gives the block of index 1 with one transaction, the chain
  has length 2 and the pending queue is empty.
\<close>

theorem create_block_seals_pending_witness:
  "\<exists>b s'. create_block (\<lambda>_. ''cd'') 2 2
       (snd (add_transaction (\<lambda>_. ''ab'') 1
          (initialize (BlockchainSimulator (\<lambda>_. ''cd'') 0 0) [(''A'', 100)]) ''A'' ''B'' 30))
     = Inr (b, s') \<and>
     length (transactions b) = 1 \<and> index b = 1 \<and> previous_hash b = ''cd'' \<and>
     map block_index (transactions b) = [Some 1] \<and>
     length (chain (blockchain s')) = 2 \<and> get_pending_transactions s' = []"
proof -
  let ?s = "snd (add_transaction (\<lambda>_. ''ab'') 1
          (initialize (BlockchainSimulator (\<lambda>_. ''cd'') 0 0) [(''A'', 100)]) ''A'' ''B'' 30)"
  have ch: "chain (blockchain ?s) = [Block (\<lambda>_. ''cd'') 0 0 (replicate 64 (CHR ''0'')) []]"
    by (simp add: add_transaction_chain initialize_def BlockchainSimulator_def Blockchain_def
        Let_def)
  have pend: "get_pending_transactions ?s = [Transaction (\<lambda>_. ''ab'') 1 ''A'' ''B'' 30]"
    by (simp add: get_pending_transactions_def add_transaction_def Let_def initialize_def
        BlockchainSimulator_def Blockchain_def bc_add_transaction_def dict_get_def)
  have "chain_indexed (chain (blockchain ?s))"
    by (simp add: ch chain_indexed_def)
  from create_block_seals_pending [OF this, of "\<lambda>_. ''cd''" 2 2]
  obtain b s' where r: "create_block (\<lambda>_. ''cd'') 2 2 ?s = Inr (b, s')"
    and props: "length (transactions b) = length (get_pending_transactions ?s)"
      "transactions b = map (\<lambda>tx. tx\<lparr>block_index := Some (index b)\<rparr>) (get_pending_transactions ?s)"
      "previous_hash b = hash (last (chain (blockchain ?s)))"
      "index b = int (length (chain (blockchain ?s)))"
      "chain (blockchain s') = chain (blockchain ?s) @ [b]"
      "get_pending_transactions s' = []"
    by blast
  from props have "length (transactions b) = 1 \<and> index b = 1 \<and> previous_hash b = ''cd'' \<and>
      map block_index (transactions b) = [Some 1] \<and>
      length (chain (blockchain s')) = 2 \<and> get_pending_transactions s' = []"
    by (simp add: ch pend)
  with r show ?thesis
    by (intro exI [of _ b] exI [of _ s']) simp
qed

section \<open>Claims about the price process\<close>




text \<open>
  C9, as amended. The support/resistance component is the sum over all configured
  levels of \<open>+0.02\<close> for each support level \<open>s\<close> with \<open>0.95 * s \<le> price \<le> s\<close> (the price
  is at the level or within 5\% below it) and \<open>-0.02\<close> for each resistance level \<open>r\<close>
  with \<open>r \<le> price \<le> 1.05 * r\<close> (the price is at the level or within 5\% above it);
  the effects of several levels add up. This sum is the fourth summand of the total
  change that \<open>update_price\<close> caps and applies.
\<close>

theorem support_resistance_stacks:
  "support_resistance_effect p =
     0.02 * real (length (filter (\<lambda>support.
        0.95 * support \<le> current_price p \<and> current_price p \<le> support) (support_levels p)))
     - 0.02 * real (length (filter (\<lambda>resistance.
        resistance \<le> current_price p \<and> current_price p \<le> 1.05 * resistance)
          (resistance_levels p))) \<and>
   fst (update_price p z now ts) =
     max 0.0001 (current_price p * (1 + max (- volatility p) (min (volatility p)
        (brownian_motion p z + mean_reversion p + trend_component p +
         (0.02 * real (length (filter (\<lambda>support.
            0.95 * support \<le> current_price p \<and> current_price p \<le> support) (support_levels p)))
          - 0.02 * real (length (filter (\<lambda>resistance.
            resistance \<le> current_price p \<and> current_price p \<le> 1.05 * resistance)
              (resistance_levels p))))))))"
  using support_resistance_effect_count [of p] update_price_fst [of p z now ts] by simp

text \<open>
  C9 as it is stated fails: with the support level \<open>100\<close> and the price \<open>102\<close>, which
  sits 2\% above the level, the code's component is \<open>0\<close> and the specification's
  is \<open>+0.02\<close>.
\<close>

theorem support_resistance_direction_counterexample:
  "support_resistance_effect (add_support_level (PriceSimulator 102 0.05 0) 100) = 0 \<and>
   spec_support_resistance_effect (add_support_level (PriceSimulator 102 0.05 0) 100) = 0.02 \<and>
   support_resistance_effect (add_support_level (PriceSimulator 102 0.05 0) 100)
     \<noteq> spec_support_resistance_effect (add_support_level (PriceSimulator 102 0.05 0) 100)"
  by (simp add: support_resistance_effect_def spec_support_resistance_effect_def
      add_support_level_def PriceSimulator_def)

section \<open>Claims about the tokenomics engine\<close>







section \<open>Claims about the transaction generator\<close>



end
